theory Spec2Isabelle
  imports Complex_Main
begin

section \<open>Silver breakout analysis: the detector and the aggregator\<close>

text \<open>
  The development embeds \<^verbatim>\<open>SilverBreakoutAnalyzer\<close> of
  \<^verbatim>\<open>silver_breakout_analysis.py\<close>: \<^verbatim>\<open>identify_breakouts\<close>, the statistics of
  \<^verbatim>\<open>plot_breakouts\<close> and \<^verbatim>\<open>generate_parameter_sweep_table\<close>.

  Numbers. Prices are real numbers. The results of the divisions the code performs on
  them are numpy floats, which do not raise on a zero divisor: they become an infinity or
  NaN. These results are values of \<open>fval\<close>, and NaN is also what pandas stores for a
  missing cell. Rounding is not modelled.

  Parameters. \<^verbatim>\<open>hold_days\<close> and \<^verbatim>\<open>future_days\<close> are natural numbers, the
  documented domain of the two arguments.

  Data. The analyzer is used after \<^verbatim>\<open>fetch_data\<close>: \<^verbatim>\<open>self.data\<close> is a data
  frame, its index the dates of the bars.
\<close>

subsection \<open>Float results\<close>

datatype fval = NaN | NegInf | Fin real | PosInf

text \<open>\<^verbatim>\<open>a / b\<close> on two finite floats.\<close>

definition fdiv :: "real \<Rightarrow> real \<Rightarrow> fval" where
  "fdiv a b =
     (if b \<noteq> 0 then Fin (a / b)
      else if 0 < a then PosInf
      else if a < 0 then NegInf
      else NaN)"

text \<open>\<^verbatim>\<open>v - c\<close> and \<^verbatim>\<open>v * c\<close> for a finite constant \<open>c\<close>.\<close>

fun fsub :: "fval \<Rightarrow> real \<Rightarrow> fval" where
  "fsub (Fin x) c = Fin (x - c)"
| "fsub v c = v"

fun fmul :: "fval \<Rightarrow> real \<Rightarrow> fval" where
  "fmul (Fin x) c = Fin (x * c)"
| "fmul NaN c = NaN"
| "fmul PosInf c = (if 0 < c then PosInf else if c < 0 then NegInf else NaN)"
| "fmul NegInf c = (if 0 < c then NegInf else if c < 0 then PosInf else NaN)"

text \<open>\<^verbatim>\<open>v >= t\<close> for a finite \<open>t\<close>: every comparison with NaN is false.\<close>

fun fge :: "fval \<Rightarrow> real \<Rightarrow> bool" where
  "fge (Fin x) t = (t \<le> x)"
| "fge PosInf t = True"
| "fge NegInf t = False"
| "fge NaN t = False"

subsection \<open>The data model\<close>

record bar =
  date :: nat
  Open :: real
  High :: real
  Low :: real
  Close :: real

text \<open>
  The data frame: its rows, and the column \<^verbatim>\<open>Daily_Return\<close>, absent until
  \<^verbatim>\<open>identify_breakouts\<close> writes it.
\<close>

record frame =
  bars :: "bar list"
  Daily_Return :: "fval list option"

datatype status = completed | pending

record event =
  breakout_date :: nat
  breakout_price :: real
  breakout_return :: fval
  future_price :: "real option"
  future_return :: "fval option"
  is_winner :: "bool option"
  status :: status
  hold_period_data :: "(nat \<times> real) list"

record analyzer =
  symbol :: string
  start_date :: string
  data :: frame
  breakouts :: "event list option"

datatype error = KeyError | NonUniqueIndex

subsection \<open>Daily returns\<close>

text \<open>
  \<^verbatim>\<open>Series.pct_change()\<close> is \<^verbatim>\<open>s / s.shift(1) - 1\<close>: NaN on the first row, since
  the shifted series has no value there.
\<close>

definition pct_change :: "real list \<Rightarrow> fval list" where
  "pct_change cs =
     (case cs of
        [] \<Rightarrow> []
      | c # rest \<Rightarrow> NaN # map (\<lambda>(prev, cur). fsub (fdiv cur prev) 1) (zip cs rest))"

definition daily_returns :: "bar list \<Rightarrow> fval list" where
  "daily_returns d = map (\<lambda>v. fmul v 100) (pct_change (map Close d))"

subsection \<open>Detection\<close>

text \<open>
  \<^verbatim>\<open>index.get_loc(key)\<close> is the position of the key when the key occurs once. When
  it occurs several times pandas returns a slice or a mask, and the arithmetic and the
  tests the caller performs on it raise: the error \<open>NonUniqueIndex\<close>.
\<close>

definition get_loc :: "nat list \<Rightarrow> nat \<Rightarrow> error + nat" where
  "get_loc idx key =
     (case filter (\<lambda>i. idx ! i = key) [0..<length idx] of
        [] \<Rightarrow> Inl KeyError
      | [i] \<Rightarrow> Inr i
      | _ \<Rightarrow> Inl NonUniqueIndex)"

text \<open>
  The hold loop, \<^verbatim>\<open>for i in range(1, hold_days + 1)\<close>, over the list of the values
  of \<open>i\<close> still to come.
\<close>

fun holds_above :: "bar list \<Rightarrow> nat \<Rightarrow> real \<Rightarrow> nat list \<Rightarrow> bool" where
  "holds_above d loc bp [] = True"
| "holds_above d loc bp (i # rest) =
     (let check_idx = loc + i in
      if length d \<le> check_idx then False
      else if Close (d ! check_idx) < bp then False
      else holds_above d loc bp rest)"

text \<open>
  The second loop, \<^verbatim>\<open>for i in range(hold_days + 1)\<close>, which collects the date and
  the close of every position that exists.
\<close>

fun hold_period :: "bar list \<Rightarrow> nat \<Rightarrow> nat list \<Rightarrow> (nat \<times> real) list" where
  "hold_period d loc [] = []"
| "hold_period d loc (i # rest) =
     (let check_idx = loc + i in
      if check_idx < length d
      then (date (d ! check_idx), Close (d ! check_idx)) # hold_period d loc rest
      else hold_period d loc rest)"

text \<open>The record appended for a candidate that held (lines 104 to 136).\<close>

definition make_event :: "bar list \<Rightarrow> nat \<Rightarrow> nat \<Rightarrow> nat \<Rightarrow> bar \<Rightarrow> fval \<Rightarrow> event" where
  "make_event d hold_days future_days loc row ret =
     (let bp = Low row;
          future_idx = loc + future_days;
          has_future_data = future_idx < length d
      in if has_future_data
         then (let fp = Close (d ! future_idx) in
               \<lparr>breakout_date = date row, breakout_price = bp, breakout_return = ret,
                future_price = Some fp,
                future_return = Some (fmul (fdiv (fp - bp) bp) 100),
                is_winner = Some (bp < fp),
                status = completed,
                hold_period_data = hold_period d loc [0..<hold_days + 1]\<rparr>)
         else \<lparr>breakout_date = date row, breakout_price = bp, breakout_return = ret,
               future_price = None, future_return = None, is_winner = None,
               status = pending,
               hold_period_data = hold_period d loc [0..<hold_days + 1]\<rparr>)"

text \<open>
  One pass of the loop over the candidates: an error, \<open>None\<close> for
  \<^verbatim>\<open>continue\<close>, or the record to append.
\<close>

definition analyze_candidate ::
    "bar list \<Rightarrow> nat \<Rightarrow> nat \<Rightarrow> bar \<times> fval \<Rightarrow> error + event option" where
  "analyze_candidate d hold_days future_days cand =
     (case get_loc (map date d) (date (fst cand)) of
        Inl e \<Rightarrow> Inl e
      | Inr loc \<Rightarrow>
          if holds_above d loc (Low (fst cand)) [1..<hold_days + 1]
          then Inr (Some (make_event d hold_days future_days loc (fst cand) (snd cand)))
          else Inr None)"

fun analyze_all ::
    "bar list \<Rightarrow> nat \<Rightarrow> nat \<Rightarrow> (bar \<times> fval) list \<Rightarrow> event list \<Rightarrow> error + event list" where
  "analyze_all d hold_days future_days [] acc = Inr acc"
| "analyze_all d hold_days future_days (c # cs) acc =
     (case analyze_candidate d hold_days future_days c of
        Inl e \<Rightarrow> Inl e
      | Inr None \<Rightarrow> analyze_all d hold_days future_days cs acc
      | Inr (Some ev) \<Rightarrow> analyze_all d hold_days future_days cs (acc @ [ev]))"

text \<open>The rows whose \<^verbatim>\<open>Daily_Return\<close> is at least the threshold, with that return.\<close>

definition breakout_candidates :: "bar list \<Rightarrow> fval list \<Rightarrow> real \<Rightarrow> (bar \<times> fval) list" where
  "breakout_candidates d rets threshold_pct =
     filter (\<lambda>c. fge (snd c) threshold_pct) (zip d rets)"

text \<open>
  \<^verbatim>\<open>identify_breakouts\<close>: the analyzer after the call, and the returned collection or
  the error raised. The column is written before the loop, so it stays written when the
  loop raises; \<^verbatim>\<open>self.breakouts\<close> is assigned after the loop only.
\<close>

definition identify_breakouts ::
    "analyzer \<Rightarrow> real \<Rightarrow> nat \<Rightarrow> nat \<Rightarrow> analyzer \<times> (error + event list)" where
  "identify_breakouts a threshold_pct hold_days future_days =
     (let d = bars (data a);
          rets = daily_returns d;
          a1 = a\<lparr>data := (data a)\<lparr>Daily_Return := Some rets\<rparr>\<rparr>
      in case analyze_all d hold_days future_days
                (breakout_candidates d rets threshold_pct) [] of
           Inl e \<Rightarrow> (a1, Inl e)
         | Inr evs \<Rightarrow> (a1\<lparr>breakouts := Some evs\<rparr>, Inr evs))"

subsection \<open>The loop seen by position\<close>

text \<open>
  A position is reported when its return reaches the threshold and the hold loop
  succeeds there; \<open>event_at\<close> is the record the loop appends for it.
\<close>

definition confirmed :: "bar list \<Rightarrow> real \<Rightarrow> nat \<Rightarrow> nat \<Rightarrow> bool" where
  "confirmed d threshold_pct hold_days i \<longleftrightarrow>
     fge (daily_returns d ! i) threshold_pct \<and> holds_above d i (Low (d ! i)) [1..<hold_days + 1]"

definition event_at :: "bar list \<Rightarrow> nat \<Rightarrow> nat \<Rightarrow> nat \<Rightarrow> event" where
  "event_at d hold_days future_days i = make_event d hold_days future_days i (d ! i) (daily_returns d ! i)"

subsection \<open>Aggregation\<close>

text \<open>
  The columns of the result frame. A pending record holds \<^verbatim>\<open>None\<close> in
  \<^verbatim>\<open>future_return\<close>, which the column stores as NaN.
\<close>

definition future_return_column :: "event list \<Rightarrow> fval list" where
  "future_return_column evs =
     map (\<lambda>e. case future_return e of None \<Rightarrow> NaN | Some v \<Rightarrow> v) evs"

definition is_winner_column :: "event list \<Rightarrow> bool option list" where
  "is_winner_column evs = map is_winner evs"

text \<open>
  \<^verbatim>\<open>Series.sum()\<close> on the \<^verbatim>\<open>is_winner\<close> column skips the missing cells and
  counts the true ones; \<^verbatim>\<open>(column == True).sum()\<close> counts the same cells.
\<close>

definition count_true :: "bool option list \<Rightarrow> nat" where
  "count_true ws = length (filter (\<lambda>w. w = Some True) ws)"

text \<open>The pandas reductions skip NaN (\<^verbatim>\<open>skipna=True\<close>).\<close>

definition dropna :: "fval list \<Rightarrow> fval list" where
  "dropna vs = filter (\<lambda>v. v \<noteq> NaN) vs"

fun fadd :: "fval \<Rightarrow> fval \<Rightarrow> fval" where
  "fadd (Fin x) (Fin y) = Fin (x + y)"
| "fadd NaN v = NaN"
| "fadd v NaN = NaN"
| "fadd PosInf NegInf = NaN"
| "fadd NegInf PosInf = NaN"
| "fadd PosInf v = PosInf"
| "fadd v PosInf = PosInf"
| "fadd NegInf v = NegInf"
| "fadd v NegInf = NegInf"

fun fdivn :: "fval \<Rightarrow> nat \<Rightarrow> fval" where
  "fdivn (Fin x) n = Fin (x / real n)"
| "fdivn v n = v"

text \<open>The order of the floats that are not NaN.\<close>

fun fle :: "fval \<Rightarrow> fval \<Rightarrow> bool" where
  "fle NegInf v = True"
| "fle v PosInf = True"
| "fle (Fin x) (Fin y) = (x \<le> y)"
| "fle v w = False"

fun finsert :: "fval \<Rightarrow> fval list \<Rightarrow> fval list" where
  "finsert v [] = [v]"
| "finsert v (w # ws) = (if fle v w then v # w # ws else w # finsert v ws)"

definition fsort :: "fval list \<Rightarrow> fval list" where
  "fsort vs = foldr finsert vs []"

definition fmean :: "fval list \<Rightarrow> fval" where
  "fmean vs =
     (let xs = dropna vs in
      if xs = [] then NaN else fdivn (foldl fadd (Fin 0) xs) (length xs))"

definition fmedian :: "fval list \<Rightarrow> fval" where
  "fmedian vs =
     (let xs = fsort (dropna vs); n = length xs in
      if n = 0 then NaN
      else if odd n then xs ! (n div 2)
      else fdivn (fadd (xs ! (n div 2 - 1)) (xs ! (n div 2))) 2)"

definition fmin :: "fval list \<Rightarrow> fval" where
  "fmin vs = (case fsort (dropna vs) of [] \<Rightarrow> NaN | x # xs \<Rightarrow> x)"

definition fmax :: "fval list \<Rightarrow> fval" where
  "fmax vs = (case rev (fsort (dropna vs)) of [] \<Rightarrow> NaN | x # xs \<Rightarrow> x)"

text \<open>
  The sample standard deviation (\<^verbatim>\<open>ddof=1\<close>): NaN below two values, and NaN as
  soon as one value is infinite, since a deviation from the mean is then NaN.
\<close>

fun fin_values :: "fval list \<Rightarrow> real list option" where
  "fin_values [] = Some []"
| "fin_values (Fin x # vs) = map_option (\<lambda>xs. x # xs) (fin_values vs)"
| "fin_values (v # vs) = None"

definition fstd :: "fval list \<Rightarrow> fval" where
  "fstd vs =
     (let xs = dropna vs; n = length xs in
      if n < 2 then NaN
      else case fin_values xs of
             None \<Rightarrow> NaN
           | Some rs \<Rightarrow>
               (let m = sum_list rs / real n in
                Fin (sqrt (sum_list (map (\<lambda>x. (x - m)\<^sup>2) rs) / real (n - 1)))))"

text \<open>
  The figures \<^verbatim>\<open>identify_breakouts\<close> prints for a non-empty collection with at least
  one completed record (lines 150 to 164); nothing is computed otherwise.
\<close>

record report =
  report_wins :: nat
  report_win_rate :: real
  report_avg_future_return :: fval
  report_min :: fval
  report_max :: fval
  report_std :: fval

definition completed_report :: "event list \<Rightarrow> report option" where
  "completed_report evs =
     (let completed_breakouts = filter (\<lambda>e. status e = completed) evs in
      if 0 < length evs \<and> 0 < length completed_breakouts
      then (let ws = count_true (is_winner_column completed_breakouts);
                col = future_return_column completed_breakouts
            in Some \<lparr>report_wins = ws,
                     report_win_rate = real ws / real (length completed_breakouts) * 100,
                     report_avg_future_return = fmean col,
                     report_min = fmin col,
                     report_max = fmax col,
                     report_std = fstd col\<rparr>)
      else None)"

text \<open>
  The statistics in the title of \<^verbatim>\<open>plot_breakouts\<close> (lines 225 to 238). The method
  returns before them when there is no collection or an empty one.
\<close>

record title_stats =
  plot_median_return :: fval
  plot_win_rate :: real
  plot_win_count :: nat
  plot_completed_count :: nat
  plot_pending_count :: nat

definition title_stats_of :: "event list \<Rightarrow> title_stats" where
  "title_stats_of evs =
     (let completed_breakouts = filter (\<lambda>e. status e = completed) evs;
          pending_count = length (filter (\<lambda>e. status e = pending) evs)
      in if 0 < length completed_breakouts
         then (let win_count = count_true (is_winner_column completed_breakouts) in
               \<lparr>plot_median_return = fmedian (future_return_column completed_breakouts),
                plot_win_rate = real win_count / real (length completed_breakouts) * 100,
                plot_win_count = win_count,
                plot_completed_count = length completed_breakouts,
                plot_pending_count = pending_count\<rparr>)
         else \<lparr>plot_median_return = Fin 0, plot_win_rate = 0, plot_win_count = 0,
               plot_completed_count = 0, plot_pending_count = pending_count\<rparr>)"

definition plot_breakouts :: "analyzer \<Rightarrow> title_stats option" where
  "plot_breakouts a =
     (case breakouts a of
        None \<Rightarrow> None
      | Some evs \<Rightarrow> if length evs = 0 then None else Some (title_stats_of evs))"

subsection \<open>The parameter sweep\<close>

record sweep_row =
  threshold_pct :: real
  total_breakouts :: nat
  wins :: nat
  win_rate :: real
  avg_return :: fval
  median_return :: fval
  min_return :: fval
  max_return :: fval
  std_return :: fval

text \<open>The row appended for one threshold (lines 373 to 403).\<close>

definition sweep_row_of :: "real \<Rightarrow> event list \<Rightarrow> sweep_row" where
  "sweep_row_of threshold evs =
     (if 0 < length evs
      then (let col = future_return_column evs;
                ws = count_true (is_winner_column evs)
            in \<lparr>threshold_pct = threshold,
                total_breakouts = length evs,
                wins = ws,
                win_rate = real ws / real (length evs) * 100,
                avg_return = fmean col,
                median_return = fmedian col,
                min_return = fmin col,
                max_return = fmax col,
                std_return = fstd col\<rparr>)
      else \<lparr>threshold_pct = threshold, total_breakouts = 0, wins = 0, win_rate = 0,
            avg_return = Fin 0, median_return = Fin 0, min_return = Fin 0,
            max_return = Fin 0, std_return = Fin 0\<rparr>)"

text \<open>
  The loop of \<^verbatim>\<open>generate_parameter_sweep_table\<close>: every pass calls
  \<^verbatim>\<open>identify_breakouts\<close> on the analyzer the pass before left, with
  \<^verbatim>\<open>hold_days=2\<close> and \<^verbatim>\<open>future_days=126\<close>.
\<close>

fun sweep_loop ::
    "analyzer \<Rightarrow> real list \<Rightarrow> sweep_row list \<Rightarrow> analyzer \<times> (error + sweep_row list)" where
  "sweep_loop a [] results = (a, Inr results)"
| "sweep_loop a (threshold # rest) results =
     (case identify_breakouts a threshold 2 126 of
        (a', Inl e) \<Rightarrow> (a', Inl e)
      | (a', Inr evs) \<Rightarrow> sweep_loop a' rest (results @ [sweep_row_of threshold evs]))"

definition generate_parameter_sweep_table ::
    "analyzer \<Rightarrow> real list \<Rightarrow> analyzer \<times> (error + sweep_row list)" where
  "generate_parameter_sweep_table a thresholds = sweep_loop a thresholds []"

text \<open>
  The sweep as the specification words it: one detection run per threshold, each on the
  analyzer as it was given, none seeing what another run left behind.
\<close>

fun sweep_by_standalone_runs :: "analyzer \<Rightarrow> real list \<Rightarrow> error + sweep_row list" where
  "sweep_by_standalone_runs a [] = Inr []"
| "sweep_by_standalone_runs a (threshold # rest) =
     (case snd (identify_breakouts a threshold 2 126) of
        Inl e \<Rightarrow> Inl e
      | Inr evs \<Rightarrow>
          (case sweep_by_standalone_runs a rest of
             Inl e \<Rightarrow> Inl e
           | Inr rows \<Rightarrow> Inr (sweep_row_of threshold evs # rows)))"

subsection \<open>Example data\<close>

text \<open>
  Five bars with closes 100, 106, 107, 108, 50: the second day gains six percent, its low
  is 105, and the two closes after it stay above that low.
\<close>

definition ex_bars :: "bar list" where
  "ex_bars = [\<lparr>date = 0, Open = 100, High = 100, Low = 99, Close = 100\<rparr>,
              \<lparr>date = 1, Open = 105, High = 106, Low = 105, Close = 106\<rparr>,
              \<lparr>date = 2, Open = 107, High = 107, Low = 106, Close = 107\<rparr>,
              \<lparr>date = 3, Open = 108, High = 108, Low = 107, Close = 108\<rparr>,
              \<lparr>date = 4, Open = 50, High = 50, Low = 50, Close = 50\<rparr>]"

definition ex_an :: analyzer where
  "ex_an = \<lparr>symbol = ''SI=F'', start_date = ''2000-01-01'',
            data = \<lparr>bars = ex_bars, Daily_Return = None\<rparr>, breakouts = None\<rparr>"

text \<open>The record of that day for \<^verbatim>\<open>hold_days=2\<close> and \<^verbatim>\<open>future_days=1\<close>.\<close>

definition ex_event :: event where
  "ex_event = \<lparr>breakout_date = 1, breakout_price = 105, breakout_return = Fin 6,
         future_price = Some 107, future_return = Some (Fin (40 / 21)),
         is_winner = Some True, status = completed,
         hold_period_data = [(1, 106), (2, 107), (3, 108)]\<rparr>"

text \<open>The same day when the horizon lies beyond the series, and when it is zero.\<close>

definition ex_pending :: event where
  "ex_pending = \<lparr>breakout_date = 1, breakout_price = 105, breakout_return = Fin 6,
         future_price = None, future_return = None,
         is_winner = None, status = pending,
         hold_period_data = [(1, 106), (2, 107), (3, 108)]\<rparr>"

definition ex_same_day :: event where
  "ex_same_day = \<lparr>breakout_date = 1, breakout_price = 105, breakout_return = Fin 6,
         future_price = Some 106, future_return = Some (Fin (20 / 21)),
         is_winner = Some True, status = completed,
         hold_period_data = [(1, 106), (2, 107), (3, 108)]\<rparr>"

text \<open>Two bars, the second closing on its own low after a gain of six percent.\<close>

definition tie_bars :: "bar list" where
  "tie_bars = [\<lparr>date = 0, Open = 100, High = 100, Low = 100, Close = 100\<rparr>,
               \<lparr>date = 1, Open = 106, High = 106, Low = 106, Close = 106\<rparr>]"

definition tie_an :: analyzer where
  "tie_an = \<lparr>symbol = ''SI=F'', start_date = ''2000-01-01'',
             data = \<lparr>bars = tie_bars, Daily_Return = None\<rparr>, breakouts = None\<rparr>"

definition tie_event :: event where
  "tie_event = \<lparr>breakout_date = 1, breakout_price = 106, breakout_return = Fin 6,
         future_price = Some 106, future_return = Some (Fin 0),
         is_winner = Some False, status = completed,
         hold_period_data = [(1, 106)]\<rparr>"

text \<open>
  A series of 131 bars: a gain of ten percent on day 1 and again on day 128, flat
  otherwise. Day 1 has its horizon of 126 days inside the series, day 128 has not.
\<close>

definition long_bar :: "nat \<Rightarrow> bar" where
  "long_bar i =
     (if i = 0 then \<lparr>date = i, Open = 100, High = 100, Low = 100, Close = 100\<rparr>
      else if i < 128 then \<lparr>date = i, Open = 110, High = 110, Low = 105, Close = 110\<rparr>
      else \<lparr>date = i, Open = 121, High = 121, Low = 115, Close = 121\<rparr>)"

definition long_bars :: "bar list" where
  "long_bars = map long_bar [0..<131]"

definition long_an :: analyzer where
  "long_an = \<lparr>symbol = ''SI=F'', start_date = ''2000-01-01'',
              data = \<lparr>bars = long_bars, Daily_Return = None\<rparr>, breakouts = None\<rparr>"

definition long_winner :: event where
  "long_winner = \<lparr>breakout_date = 1, breakout_price = 105, breakout_return = Fin 10,
         future_price = Some 110, future_return = Some (Fin (100 / 21)),
         is_winner = Some True, status = completed,
         hold_period_data = [(1, 110), (2, 110), (3, 110)]\<rparr>"

definition long_pending :: event where
  "long_pending = \<lparr>breakout_date = 128, breakout_price = 115, breakout_return = Fin 10,
         future_price = None, future_return = None,
         is_winner = None, status = pending,
         hold_period_data = [(128, 121), (129, 121), (130, 121)]\<rparr>"

text \<open>The row of the sweep for that series at the threshold 5.\<close>

definition long_row :: sweep_row where
  "long_row = \<lparr>threshold_pct = 5, total_breakouts = 2, wins = 1, win_rate = 50,
         avg_return = Fin (100 / 21), median_return = Fin (100 / 21),
         min_return = Fin (100 / 21), max_return = Fin (100 / 21), std_return = NaN\<rparr>"

subsection \<open>Detection by position\<close>

lemma filter_eq_upt: "i < n \<Longrightarrow> filter (\<lambda>j. j = i) [0..<n] = [i]"
  by (induction n) (auto simp: less_Suc_eq)

lemma get_loc_distinct:
  assumes "distinct idx" "i < length idx"
  shows "get_loc idx (idx ! i) = Inr i"
proof -
  have "filter (\<lambda>j. idx ! j = idx ! i) [0..<length idx] = filter (\<lambda>j. j = i) [0..<length idx]"
    using assms by (intro filter_cong) (auto simp: nth_eq_iff_index_eq)
  then show ?thesis using assms by (simp add: get_loc_def filter_eq_upt)
qed

lemma holds_above_iff:
  "holds_above d loc bp js \<longleftrightarrow> (\<forall>j\<in>set js. loc + j < length d \<and> bp \<le> Close (d ! (loc + j)))"
  by (induction js) (auto simp: Let_def)

lemma hold_period_eq:
  "hold_period d loc js = map (\<lambda>j. (date (d ! (loc + j)), Close (d ! (loc + j)))) (filter (\<lambda>j. loc + j < length d) js)"
  by (induction js) (auto simp: Let_def)

lemma length_pct_change: "length (pct_change cs) = length cs"
  by (cases cs) (auto simp: pct_change_def)

lemma length_daily_returns: "length (daily_returns d) = length d"
  by (simp add: daily_returns_def length_pct_change)

lemma analyze_candidate_at:
  assumes "distinct (map date d)" "i < length d"
  shows "analyze_candidate d h f (d ! i, r) =
     (if holds_above d i (Low (d ! i)) [1..<h + 1] then Inr (Some (make_event d h f i (d ! i) r)) else Inr None)"
  using get_loc_distinct[OF assms(1), of i] assms(2) by (simp add: analyze_candidate_def)

lemma analyze_all_positions:
  assumes "distinct (map date d)" "\<forall>i\<in>set ps. i < length d"
  shows "analyze_all d h f (map (\<lambda>i. (d ! i, rets ! i)) ps) acc =
     Inr (acc @ map (\<lambda>i. make_event d h f i (d ! i) (rets ! i))
                  (filter (\<lambda>i. holds_above d i (Low (d ! i)) [1..<h + 1]) ps))"
  using assms(2)
proof (induction ps arbitrary: acc)
  case Nil
  then show ?case by simp
next
  case (Cons p ps)
  have p: "p < length d" and ps: "\<forall>i\<in>set ps. i < length d"
    using Cons.prems by simp_all
  note IH = Cons.IH[OF ps]
  show ?case
  proof (cases "holds_above d p (Low (d ! p)) [1..<h + 1]")
    case True
    then have "analyze_candidate d h f (d ! p, rets ! p) = Inr (Some (make_event d h f p (d ! p) (rets ! p)))"
      by (simp only: analyze_candidate_at[OF assms(1) p] if_True)
    then show ?thesis using True by (simp only: list.map analyze_all.simps sum.case option.case IH filter.simps if_True append_assoc append_Cons append_Nil)
  next
    case False
    then have "analyze_candidate d h f (d ! p, rets ! p) = Inr None"
      by (simp only: analyze_candidate_at[OF assms(1) p] if_False)
    then show ?thesis using False by (simp only: list.map analyze_all.simps sum.case option.case IH filter.simps if_False)
  qed
qed

lemma zip_positions:
  "length ys = length xs \<Longrightarrow> zip xs ys = map (\<lambda>i. (xs ! i, ys ! i)) [0..<length xs]"
  by (rule nth_equalityI) simp_all

lemma breakout_candidates_positions:
  assumes "length rets = length d"
  shows "breakout_candidates d rets t =
     map (\<lambda>i. (d ! i, rets ! i)) (filter (\<lambda>i. fge (rets ! i) t) [0..<length d])"
  unfolding breakout_candidates_def zip_positions[OF assms] filter_map
  by (simp add: comp_def)

lemma identify_breakouts_events:
  assumes "distinct (map date (bars (data a)))"
  shows "snd (identify_breakouts a t h f) =
     Inr (map (event_at (bars (data a)) h f)
            (filter (confirmed (bars (data a)) t h) [0..<length (bars (data a))]))"
proof -
  let ?d = "bars (data a)"
  have e: "event_at ?d h f = (\<lambda>i. make_event ?d h f i (?d ! i) (daily_returns ?d ! i))"
    by (rule ext) (simp add: event_at_def)
  have c: "confirmed ?d t h = (\<lambda>i. fge (daily_returns ?d ! i) t \<and> holds_above ?d i (Low (?d ! i)) [1..<h + 1])"
    by (rule ext) (simp add: confirmed_def)
  have "analyze_all ?d h f (breakout_candidates ?d (daily_returns ?d) t) [] =
     Inr (map (event_at ?d h f) (filter (confirmed ?d t h) [0..<length ?d]))"
    unfolding breakout_candidates_positions[OF length_daily_returns]
  proof (subst analyze_all_positions[OF assms])
    show "\<forall>i\<in>set (filter (\<lambda>i. fge (daily_returns ?d ! i) t) [0..<length ?d]). i < length ?d"
      by simp
    show "Inr ([] @ map (\<lambda>i. make_event ?d h f i (?d ! i) (daily_returns ?d ! i))
            (filter (\<lambda>i. holds_above ?d i (Low (?d ! i)) [1..<h + 1])
               (filter (\<lambda>i. fge (daily_returns ?d ! i) t) [0..<length ?d]))) =
          (Inr (map (event_at ?d h f) (filter (confirmed ?d t h) [0..<length ?d])) :: error + event list)"
      by (simp only: e c filter_filter append_Nil)
  qed
  then show ?thesis by (simp add: identify_breakouts_def Let_def)
qed

subsection \<open>Reported records and their positions\<close>

lemma same_date_same_position:
  assumes "distinct (map date d)" "i < length d" "k < length d" "date (d ! i) = date (d ! k)"
  shows "i = k"
proof -
  have "(map date d ! i = map date d ! k) = (i = k)"
    using assms by (intro nth_eq_iff_index_eq) simp_all
  then show ?thesis using assms by simp
qed

lemma reported_event_position:
  assumes "distinct (map date (bars (data a)))"
    and "snd (identify_breakouts a t h f) = Inr evs"
    and "e \<in> set evs"
  obtains i where "i < length (bars (data a))" "confirmed (bars (data a)) t h i"
    "e = event_at (bars (data a)) h f i"
proof -
  have "evs = map (event_at (bars (data a)) h f)
            (filter (confirmed (bars (data a)) t h) [0..<length (bars (data a))])"
    using identify_breakouts_events[OF assms(1), of t h f] assms(2) by simp
  then show ?thesis using assms(3) that by auto
qed

lemma confirmed_position_reported:
  assumes "distinct (map date (bars (data a)))"
    and "snd (identify_breakouts a t h f) = Inr evs"
    and "i < length (bars (data a))" "confirmed (bars (data a)) t h i"
  shows "event_at (bars (data a)) h f i \<in> set evs"
proof -
  have "evs = map (event_at (bars (data a)) h f)
            (filter (confirmed (bars (data a)) t h) [0..<length (bars (data a))])"
    using identify_breakouts_events[OF assms(1), of t h f] assms(2) by simp
  then show ?thesis using assms(3,4) by simp
qed

lemma event_at_date [simp]: "breakout_date (event_at d h f i) = date (d ! i)"
  by (simp add: event_at_def make_event_def Let_def)

lemma event_at_price [simp]: "breakout_price (event_at d h f i) = Low (d ! i)"
  by (simp add: event_at_def make_event_def Let_def)

lemma event_at_return [simp]: "breakout_return (event_at d h f i) = daily_returns d ! i"
  by (simp add: event_at_def make_event_def Let_def)

lemma event_at_hold [simp]:
  "hold_period_data (event_at d h f i) = hold_period d i [0..<h + 1]"
  by (simp add: event_at_def make_event_def Let_def)

lemma event_at_completed:
  assumes "i + f < length d"
  shows "status (event_at d h f i) = completed"
    and "future_price (event_at d h f i) = Some (Close (d ! (i + f)))"
    and "future_return (event_at d h f i) =
           Some (fmul (fdiv (Close (d ! (i + f)) - Low (d ! i)) (Low (d ! i))) 100)"
    and "is_winner (event_at d h f i) = Some (Low (d ! i) < Close (d ! (i + f)))"
  using assms by (simp_all add: event_at_def make_event_def Let_def)

lemma event_at_pending:
  assumes "\<not> i + f < length d"
  shows "status (event_at d h f i) = pending"
    and "future_price (event_at d h f i) = None"
    and "future_return (event_at d h f i) = None"
    and "is_winner (event_at d h f i) = None"
  using assms by (simp_all add: event_at_def make_event_def Let_def)

lemma daily_returns_first: "d \<noteq> [] \<Longrightarrow> daily_returns d ! 0 = NaN"
  by (cases d) (simp_all add: daily_returns_def pct_change_def)

lemma confirmed_holds:
  "confirmed d t h i \<Longrightarrow> j \<in> {1..h} \<Longrightarrow> i + j < length d \<and> Low (d ! i) \<le> Close (d ! (i + j))"
  by (auto simp: confirmed_def holds_above_iff simp del: upt_Suc)

lemma ex_distinct: "distinct (map date (bars (data ex_an)))"
  by (simp add: ex_an_def ex_bars_def)

lemma ex_returns: "daily_returns ex_bars = [NaN, Fin 6, Fin (50 / 53), Fin (100 / 107), Fin (- (1450 / 27))]"
  by (simp add: daily_returns_def pct_change_def ex_bars_def fdiv_def)

lemma ex_run: "snd (identify_breakouts ex_an 5 2 1) = Inr [ex_event]"
  by (simp add: identify_breakouts_def ex_an_def ex_returns breakout_candidates_def)
     (simp add: ex_bars_def analyze_candidate_def get_loc_def make_event_def fdiv_def Let_def upt_conv_Cons ex_event_def)

lemma ex_run_pending: "snd (identify_breakouts ex_an 5 2 10) = Inr [ex_pending]"
  by (simp add: identify_breakouts_def ex_an_def ex_returns breakout_candidates_def)
     (simp add: ex_bars_def analyze_candidate_def get_loc_def make_event_def fdiv_def Let_def upt_conv_Cons ex_pending_def)

lemma ex_run_same_day: "snd (identify_breakouts ex_an 5 2 0) = Inr [ex_same_day]"
  by (simp add: identify_breakouts_def ex_an_def ex_returns breakout_candidates_def)
     (simp add: ex_bars_def analyze_candidate_def get_loc_def make_event_def fdiv_def Let_def upt_conv_Cons ex_same_day_def)

lemma ex_length: "length (bars (data ex_an)) = 5"
  by (simp add: ex_an_def ex_bars_def)

lemma ex_confirmed: "confirmed (bars (data ex_an)) 5 2 1"
  by (simp add: confirmed_def ex_an_def ex_returns)
     (simp add: ex_bars_def upt_conv_Cons)

lemma candidate_in_set:
  assumes "i < length d" "fge (daily_returns d ! i) t"
  shows "(d ! i, daily_returns d ! i) \<in> set (breakout_candidates d (daily_returns d) t)"
  using assms by (simp add: breakout_candidates_positions[OF length_daily_returns])

lemma candidate_positions:
  assumes "c \<in> set (breakout_candidates d (daily_returns d) t)"
  obtains i where "i < length d" "c = (d ! i, daily_returns d ! i)" "fge (daily_returns d ! i) t"
  using assms by (auto simp: breakout_candidates_positions[OF length_daily_returns])

lemma ex_run_tie: "snd (identify_breakouts ex_an 6 2 1) = Inr [ex_event]"
  by (simp add: identify_breakouts_def ex_an_def ex_returns breakout_candidates_def)
     (simp add: ex_bars_def analyze_candidate_def get_loc_def make_event_def fdiv_def Let_def upt_conv_Cons ex_event_def)

lemma tie_distinct: "distinct (map date (bars (data tie_an)))"
  by (simp add: tie_an_def tie_bars_def)

lemma tie_run: "snd (identify_breakouts tie_an 5 0 0) = Inr [tie_event]"
  by (simp add: identify_breakouts_def tie_an_def breakout_candidates_def daily_returns_def pct_change_def tie_bars_def fdiv_def
        analyze_candidate_def get_loc_def make_event_def Let_def upt_conv_Cons tie_event_def)

lemma hold_period_full:
  assumes "i + h < length d"
  shows "hold_period d i [0..<h + 1] = map (\<lambda>k. (date (d ! k), Close (d ! k))) [i..<i + h + 1]"
proof -
  have "filter (\<lambda>j. i + j < length d) [0..<h + 1] = [0..<h + 1]"
    using assms by (intro filter_True) (simp del: upt_Suc)
  moreover have "map (\<lambda>j. (date (d ! (i + j)), Close (d ! (i + j)))) [0..<h + 1] =
                 map (\<lambda>k. (date (d ! k), Close (d ! k))) [i..<i + h + 1]"
    by (rule nth_equalityI) (simp_all del: upt_Suc add: nth_append)
  ultimately show ?thesis by (simp only: hold_period_eq)
qed

lemma confirmed_window_inside:
  assumes "confirmed d t h i" "i < length d"
  shows "i + h < length d"
proof (cases "h = 0")
  case True
  then show ?thesis using assms(2) by simp
next
  case False
  then have "h \<in> {1..h}" by simp
  from confirmed_holds[OF assms(1) this] show ?thesis by simp
qed

subsection \<open>What a detection run reads and writes\<close>

lemma identify_breakouts_frame:
  "data (fst (identify_breakouts a t h f)) =
     (data a)\<lparr>Daily_Return := Some (daily_returns (bars (data a)))\<rparr>"
  by (simp add: identify_breakouts_def Let_def split: sum.splits)

lemma identify_breakouts_bars:
  "bars (data (fst (identify_breakouts a t h f))) = bars (data a)"
  by (simp add: identify_breakouts_frame)

lemma identify_breakouts_reads_bars:
  "bars (data a) = bars (data b) \<Longrightarrow>
     snd (identify_breakouts a t h f) = snd (identify_breakouts b t h f)"
  by (simp add: identify_breakouts_def Let_def split: sum.splits)

lemma standalone_runs_read_bars:
  "bars (data a) = bars (data b) \<Longrightarrow>
     sweep_by_standalone_runs a ts = sweep_by_standalone_runs b ts"
proof (induction ts)
  case Nil
  then show ?case by simp
next
  case (Cons t ts)
  then show ?case
    using identify_breakouts_reads_bars[of a b t 2 126] by (simp split: sum.splits)
qed

lemma sweep_loop_standalone:
  "snd (sweep_loop a ts acc) =
     (case sweep_by_standalone_runs a ts of Inl e \<Rightarrow> Inl e | Inr rows \<Rightarrow> Inr (acc @ rows))"
proof (induction ts arbitrary: a acc)
  case Nil
  then show ?case by simp
next
  case (Cons t ts)
  obtain a' r where run: "identify_breakouts a t 2 126 = (a', r)"
    by (cases "identify_breakouts a t 2 126")
  have a': "bars (data a') = bars (data a)"
    using identify_breakouts_bars[of a t 2 126] run by simp
  show ?case
  proof (cases r)
    case (Inl e)
    then show ?thesis using run by simp
  next
    case (Inr evs)
    have "snd (sweep_loop a (t # ts) acc) = snd (sweep_loop a' ts (acc @ [sweep_row_of t evs]))"
      using run Inr by simp
    also have "\<dots> = (case sweep_by_standalone_runs a' ts of
                        Inl e \<Rightarrow> Inl e | Inr rows \<Rightarrow> Inr ((acc @ [sweep_row_of t evs]) @ rows))"
      by (rule Cons.IH)
    also have "sweep_by_standalone_runs a' ts = sweep_by_standalone_runs a ts"
      by (rule standalone_runs_read_bars[OF a'])
    finally show ?thesis using run Inr by (simp split: sum.splits)
  qed
qed

lemma standalone_runs_rows:
  "sweep_by_standalone_runs a ts = Inr rows \<Longrightarrow>
     length rows = length ts \<and>
     (\<forall>k<length ts. \<exists>evs. snd (identify_breakouts a (ts ! k) 2 126) = Inr evs \<and>
                         rows ! k = sweep_row_of (ts ! k) evs)"
proof (induction ts arbitrary: rows)
  case Nil
  then show ?case by simp
next
  case (Cons t ts)
  from Cons.prems obtain evs rest where
    run: "snd (identify_breakouts a t 2 126) = Inr evs"
    and rest: "sweep_by_standalone_runs a ts = Inr rest"
    and rows: "rows = sweep_row_of t evs # rest"
    by (auto split: sum.splits)
  from Cons.IH[OF rest] have len: "length rest = length ts"
    and each: "\<forall>k<length ts. \<exists>evs. snd (identify_breakouts a (ts ! k) 2 126) = Inr evs \<and>
                         rest ! k = sweep_row_of (ts ! k) evs" by simp_all
  show ?case
  proof (intro conjI allI impI)
    show "length rows = length (t # ts)" using len rows by simp
    fix k assume k: "k < length (t # ts)"
    show "\<exists>evs. snd (identify_breakouts a ((t # ts) ! k) 2 126) = Inr evs \<and>
                         rows ! k = sweep_row_of ((t # ts) ! k) evs"
    proof (cases k)
      case 0
      then show ?thesis using run rows by simp
    next
      case (Suc j)
      then show ?thesis using each k rows by simp
    qed
  qed
qed

lemma standalone_runs_total:
  "distinct (map date (bars (data a))) \<Longrightarrow> \<exists>rows. sweep_by_standalone_runs a ts = Inr rows"
proof (induction ts)
  case Nil
  then show ?case by simp
next
  case (Cons t ts)
  then show ?case
    using identify_breakouts_events[of a t 2 126] by auto
qed

subsection \<open>The run on the long series\<close>

lemma daily_returns_nth:
  assumes "0 < i" "i < length d"
  shows "daily_returns d ! i = fmul (fsub (fdiv (Close (d ! i)) (Close (d ! (i - 1)))) 1) 100"
proof (cases d)
  case Nil
  then show ?thesis using assms by simp
next
  case (Cons b rest)
  obtain j where j: "i = Suc j" using assms(1) by (cases i) simp_all
  have "j < length rest" using assms(2) Cons j by simp
  then show ?thesis
    using Cons j by (simp add: daily_returns_def pct_change_def nth_Cons')
qed

lemma filter_two_upt:
  "a < b \<Longrightarrow> b < n \<Longrightarrow> filter (\<lambda>i. i = a \<or> i = b) [0..<n] = [a, b]"
proof (induction n)
  case 0
  then show ?case by simp
next
  case (Suc n)
  show ?case
  proof (cases "b = n")
    case True
    have "filter (\<lambda>i. i = a \<or> i = b) [0..<n] = filter (\<lambda>i. i = a) [0..<n]"
      using True by (intro filter_cong) auto
    then show ?thesis using True Suc.prems by (simp add: filter_eq_upt)
  next
    case False
    then have "b < n" using Suc.prems by simp
    then show ?thesis using Suc.IH[OF Suc.prems(1)] Suc.prems(1) by simp
  qed
qed

lemma long_length: "length long_bars = 131"
  by (simp add: long_bars_def)

lemma long_nth: "i < 131 \<Longrightarrow> long_bars ! i = long_bar i"
  by (simp add: long_bars_def del: upt_Suc)

lemma long_date: "date (long_bar i) = i"
  by (simp add: long_bar_def)

lemma long_distinct: "distinct (map date (bars (data long_an)))"
proof -
  have "map date long_bars = [0..<131]"
    unfolding long_bars_def by (simp add: comp_def long_date del: upt_Suc)
  then show ?thesis by (simp add: long_an_def del: upt_Suc)
qed

lemma long_return:
  assumes "i < 131"
  shows "daily_returns long_bars ! i =
           (if i = 0 then NaN else if i = 1 \<or> i = 128 then Fin 10 else Fin 0)"
proof (cases "i = 0")
  case True
  have "long_bars \<noteq> []"
  proof
    assume "long_bars = []"
    then have "length long_bars = 0" by (simp only: list.size)
    then show False by (simp add: long_length)
  qed
  then show ?thesis using True daily_returns_first[of long_bars] by simp
next
  case False
  then have "daily_returns long_bars ! i =
      fmul (fsub (fdiv (Close (long_bar i)) (Close (long_bar (i - 1)))) 1) 100"
    using assms by (simp add: daily_returns_nth long_length long_nth)
  then show ?thesis using False assms
    by (auto simp: long_bar_def fdiv_def)
qed

lemma long_confirmed:
  assumes "i < 131"
  shows "confirmed long_bars 5 2 i \<longleftrightarrow> i = 1 \<or> i = 128"
proof -
  have set12: "set [1..<2 + 1] = {1, 2::nat}" by auto
  show ?thesis
    unfolding confirmed_def holds_above_iff set12 long_return[OF assms]
    using assms by (auto simp: long_length long_nth long_bar_def)
qed

lemma long_unconfirmed:
  assumes "i < 131"
  shows "\<not> confirmed long_bars 20 2 i"
  unfolding confirmed_def long_return[OF assms] by simp

lemma long_positions: "filter (confirmed long_bars 5 2) [0..<131] = [1, 128]"
proof -
  have "filter (confirmed long_bars 5 2) [0..<131] = filter (\<lambda>i. i = 1 \<or> i = 128) [0..<131]"
    by (intro filter_cong) (simp_all add: long_confirmed del: upt_Suc)
  also have "\<dots> = [1, 128]" by (rule filter_two_upt) simp_all
  finally show ?thesis .
qed

lemma long_no_positions: "filter (confirmed long_bars 20 2) [0..<131] = []"
  by (simp add: long_unconfirmed filter_empty_conv del: upt_Suc)

lemma long_event_1: "event_at long_bars 2 126 1 = long_winner"
proof -
  have "hold_period long_bars 1 [0..<2 + 1] = [(1, 110), (2, 110), (3, 110)]"
    by (simp add: hold_period_full long_length upt_conv_Cons long_nth long_bar_def)
  then show ?thesis
    by (simp add: event_at_def make_event_def long_length long_nth long_return long_winner_def fdiv_def)
       (simp add: long_bar_def)
qed

lemma long_event_128: "event_at long_bars 2 126 128 = long_pending"
proof -
  have "hold_period long_bars 128 [0..<2 + 1] = [(128, 121), (129, 121), (130, 121)]"
    by (simp add: hold_period_full long_length upt_conv_Cons long_nth long_bar_def)
  then show ?thesis
    by (simp add: event_at_def make_event_def long_length long_nth long_return long_pending_def)
       (simp add: long_bar_def)
qed

lemma long_run: "snd (identify_breakouts long_an 5 2 126) = Inr [long_winner, long_pending]"
proof -
  have d: "bars (data long_an) = long_bars" by (simp add: long_an_def)
  show ?thesis
    unfolding identify_breakouts_events[OF long_distinct] d long_length long_positions
    by (simp only: list.map long_event_1 long_event_128)
qed

lemma long_run_empty: "snd (identify_breakouts long_an 20 2 126) = Inr []"
proof -
  have d: "bars (data long_an) = long_bars" by (simp add: long_an_def)
  show ?thesis
    unfolding identify_breakouts_events[OF long_distinct] d long_length long_no_positions
    by simp
qed

subsection \<open>The sweep on the examples\<close>

lemma sweep_table_standalone:
  "snd (generate_parameter_sweep_table a ts) = sweep_by_standalone_runs a ts"
  unfolding generate_parameter_sweep_table_def sweep_loop_standalone
  by (simp split: sum.splits)

lemma identify_breakouts_stores:
  "snd (identify_breakouts a t h f) = Inr evs \<Longrightarrow>
     breakouts (fst (identify_breakouts a t h f)) = Some evs"
  by (simp add: identify_breakouts_def Let_def split: sum.splits)

lemma long_row_eval: "sweep_row_of 5 [long_winner, long_pending] = long_row"
  by (simp add: sweep_row_of_def long_row_def long_winner_def long_pending_def
        future_return_column_def is_winner_column_def count_true_def
        fmean_def fmedian_def fmin_def fmax_def fstd_def dropna_def fsort_def Let_def)

lemma long_sweep: "snd (generate_parameter_sweep_table long_an [5]) = Inr [long_row]"
  by (simp add: sweep_table_standalone long_run long_row_eval)

lemma long_completed: "filter (\<lambda>e. status e = completed) [long_winner, long_pending] = [long_winner]"
  by (simp add: long_winner_def long_pending_def)

text \<open>
  The reductions over \<^verbatim>\<open>future_return\<close> skip the pending records, whose cell is
  NaN: they see the completed records only.
\<close>

lemma dropna_pending:
  assumes "\<forall>e\<in>set evs. status e \<noteq> completed \<longrightarrow> future_return e = None"
  shows "dropna (future_return_column evs) =
         dropna (future_return_column (filter (\<lambda>e. status e = completed) evs))"
  using assms by (induction evs) (auto simp: dropna_def future_return_column_def)

section \<open>The claims\<close>

text \<open>
  C1. The claim is that every reported win rate divides by the number of completed
  records. The printed report and the chart title do; the row of the sweep divides the
  wins by the number of all records, pending ones included. On the long series detection
  reports one completed record, a winner, and one pending record: the report and the
  title give a win rate of 100, the sweep row gives 50.
\<close>

theorem sweep_win_rate_counts_pending:
  "snd (identify_breakouts long_an 5 2 126) = Inr [long_winner, long_pending] \<and>
   filter (\<lambda>e. status e = completed) [long_winner, long_pending] = [long_winner] \<and>
   is_winner long_winner = Some True \<and>
   snd (generate_parameter_sweep_table long_an [5]) = Inr [long_row] \<and>
   wins long_row = 1 \<and> total_breakouts long_row = 2 \<and> win_rate long_row = 50 \<and>
   map_option report_win_rate (completed_report [long_winner, long_pending]) = Some 100 \<and>
   plot_win_rate (title_stats_of [long_winner, long_pending]) = 100"
proof -
  have "map_option report_win_rate (completed_report [long_winner, long_pending]) = Some 100"
    by (simp add: completed_report_def long_completed Let_def)
       (simp add: long_winner_def long_pending_def is_winner_column_def count_true_def)
  moreover have "plot_win_rate (title_stats_of [long_winner, long_pending]) = 100"
    by (simp add: title_stats_of_def long_completed Let_def)
       (simp add: long_winner_def long_pending_def is_winner_column_def count_true_def)
  moreover have "is_winner long_winner = Some True" by (simp add: long_winner_def)
  moreover have "wins long_row = 1 \<and> total_breakouts long_row = 2 \<and> win_rate long_row = 50"
    by (simp add: long_row_def)
  ultimately show ?thesis
    using long_run long_sweep long_completed by simp
qed

text \<open>
  C2. The claim is that detection leaves the supplied series as it was. It does not: the
  call writes the column \<^verbatim>\<open>Daily_Return\<close> into the frame it was given.
\<close>

theorem detection_writes_return_column_counterexample:
  "data (fst (identify_breakouts ex_an 5 2 1)) \<noteq> data ex_an"
  by (simp add: identify_breakouts_frame ex_an_def)

text \<open>
  C2, amended. Detection leaves the bars, their order and their fields as they were, and
  the symbol and the start date of the analyzer; it writes the column
  \<^verbatim>\<open>Daily_Return\<close>, computed from the closes alone, into the frame, so that a
  second run, whatever its parameters, leaves the frame as the first run left it.
\<close>

theorem detection_keeps_bars:
  "bars (data (fst (identify_breakouts a t h f))) = bars (data a) \<and>
   Daily_Return (data (fst (identify_breakouts a t h f))) = Some (daily_returns (bars (data a))) \<and>
   symbol (fst (identify_breakouts a t h f)) = symbol a \<and>
   start_date (fst (identify_breakouts a t h f)) = start_date a \<and>
   data (fst (identify_breakouts (fst (identify_breakouts a t h f)) t' h' f')) =
     data (fst (identify_breakouts a t h f))"
  by (simp add: identify_breakouts_frame)
     (simp add: identify_breakouts_def Let_def split: sum.splits)

text \<open>
  C3. A reported record at position \<open>i\<close> has the low of that day as its breakout
  price, every position \<open>i + 1\<close> to \<open>i + hold_days\<close> exists, and each close
  there is at least the breakout price. With \<open>hold_days\<close> of one or more, no record
  carries the date of the last bar.
\<close>

theorem hold_window_present_and_above:
  assumes "distinct (map date (bars (data a)))"
    and "snd (identify_breakouts a t h f) = Inr evs"
  shows "(\<forall>e\<in>set evs. \<forall>i<length (bars (data a)). breakout_date e = date (bars (data a) ! i) \<longrightarrow>
            breakout_price e = Low (bars (data a) ! i) \<and>
            (\<forall>j\<in>{1..h}. i + j < length (bars (data a)) \<and>
                breakout_price e \<le> Close (bars (data a) ! (i + j)))) \<and>
         (1 \<le> h \<longrightarrow> bars (data a) \<noteq> [] \<longrightarrow>
            (\<forall>e\<in>set evs. breakout_date e \<noteq> date (last (bars (data a)))))"
proof (intro conjI ballI allI impI)
  fix e i
  assume e: "e \<in> set evs" and i: "i < length (bars (data a))"
    and at: "breakout_date e = date (bars (data a) ! i)"
  from reported_event_position[OF assms e] obtain k where
    k: "k < length (bars (data a))" "confirmed (bars (data a)) t h k"
       "e = event_at (bars (data a)) h f k" by blast
  have ik: "i = k"
    using same_date_same_position[OF assms(1) i k(1)] at k(3) by simp
  show "breakout_price e = Low (bars (data a) ! i)"
    using k(3) ik by simp
  fix j assume j: "j \<in> {1..h}"
  show "i + j < length (bars (data a))"
    using confirmed_holds[OF k(2) j] ik by simp
  show "breakout_price e \<le> Close (bars (data a) ! (i + j))"
    using confirmed_holds[OF k(2) j] ik k(3) by simp
next
  fix e
  assume h: "1 \<le> h" and ne: "bars (data a) \<noteq> []" and e: "e \<in> set evs"
  from reported_event_position[OF assms e] obtain k where
    k: "k < length (bars (data a))" "confirmed (bars (data a)) t h k"
       "e = event_at (bars (data a)) h f k" by blast
  have "k + 1 < length (bars (data a))"
    using confirmed_holds[OF k(2), of 1] h by simp
  then have kl: "k \<noteq> length (bars (data a)) - 1" by simp
  show "breakout_date e \<noteq> date (last (bars (data a)))"
  proof
    assume "breakout_date e = date (last (bars (data a)))"
    then have "date (bars (data a) ! k) = date (bars (data a) ! (length (bars (data a)) - 1))"
      using k(3) ne by (simp add: last_conv_nth)
    then have "k = length (bars (data a)) - 1"
      using same_date_same_position[OF assms(1) k(1), of "length (bars (data a)) - 1"] ne by simp
    then show False using kl by simp
  qed
qed

theorem hold_window_present_and_above_witness:
  "distinct (map date (bars (data ex_an))) \<and>
   snd (identify_breakouts ex_an 5 2 1) = Inr [ex_event] \<and>
   breakout_date ex_event = date (bars (data ex_an) ! 1) \<and>
   breakout_price ex_event = Low (bars (data ex_an) ! 1) \<and>
   breakout_price ex_event \<le> Close (bars (data ex_an) ! 2) \<and>
   breakout_price ex_event \<le> Close (bars (data ex_an) ! 3) \<and>
   breakout_date ex_event \<noteq> date (last (bars (data ex_an)))"
proof -
  note T = hold_window_present_and_above[OF ex_distinct ex_run]
  have pos: "(1::nat) < length (bars (data ex_an))"
    and at: "breakout_date ex_event = date (bars (data ex_an) ! 1)"
    and ne: "bars (data ex_an) \<noteq> []"
    by (simp_all add: ex_an_def ex_bars_def ex_event_def)
  have "breakout_price ex_event = Low (bars (data ex_an) ! 1) \<and>
        (\<forall>j\<in>{1..2}. 1 + j < length (bars (data ex_an)) \<and>
            breakout_price ex_event \<le> Close (bars (data ex_an) ! (1 + j)))"
    by (rule T[THEN conjunct1, rule_format, OF _ pos at]) simp
  moreover have "(1::nat) \<in> {1..2}" "(2::nat) \<in> {1..2}" by simp_all
  ultimately have "breakout_price ex_event = Low (bars (data ex_an) ! 1)"
    "breakout_price ex_event \<le> Close (bars (data ex_an) ! (1 + 1))"
    "breakout_price ex_event \<le> Close (bars (data ex_an) ! (1 + 2))"
    by blast+
  moreover have "breakout_date ex_event \<noteq> date (last (bars (data ex_an)))"
    using T ne by simp
  ultimately show ?thesis
    using ex_distinct ex_run at by (simp add: numeral_2_eq_2 numeral_3_eq_3)
qed

text \<open>
  C4. A position that held is reported with one record: completed when position
  \<open>i + future_days\<close> exists, with the close there as future price and the return
  computed from it and the breakout price; pending otherwise, with the future price, the
  future return and the winner flag all unset.
\<close>

theorem outcome_completed_or_pending:
  assumes "distinct (map date (bars (data a)))"
    and "snd (identify_breakouts a t h f) = Inr evs"
    and "i < length (bars (data a))"
    and "confirmed (bars (data a)) t h i"
  shows "\<exists>e\<in>set evs. breakout_date e = date (bars (data a) ! i) \<and>
           breakout_price e = Low (bars (data a) ! i) \<and>
           (if i + f < length (bars (data a))
            then status e = completed \<and>
                 future_price e = Some (Close (bars (data a) ! (i + f))) \<and>
                 future_return e =
                   Some (fmul (fdiv (Close (bars (data a) ! (i + f)) - Low (bars (data a) ! i))
                                    (Low (bars (data a) ! i))) 100) \<and>
                 (Low (bars (data a) ! i) \<noteq> 0 \<longrightarrow>
                    future_return e =
                      Some (Fin ((Close (bars (data a) ! (i + f)) - Low (bars (data a) ! i))
                                   / Low (bars (data a) ! i) * 100)))
            else status e = pending \<and> future_price e = None \<and>
                 future_return e = None \<and> is_winner e = None)"
proof (intro bexI[of _ "event_at (bars (data a)) h f i"])
  show "event_at (bars (data a)) h f i \<in> set evs"
    by (rule confirmed_position_reported[OF assms])
  show "breakout_date (event_at (bars (data a)) h f i) = date (bars (data a) ! i) \<and>
        breakout_price (event_at (bars (data a)) h f i) = Low (bars (data a) ! i) \<and>
        (if i + f < length (bars (data a))
         then status (event_at (bars (data a)) h f i) = completed \<and>
              future_price (event_at (bars (data a)) h f i) = Some (Close (bars (data a) ! (i + f))) \<and>
              future_return (event_at (bars (data a)) h f i) =
                Some (fmul (fdiv (Close (bars (data a) ! (i + f)) - Low (bars (data a) ! i))
                                 (Low (bars (data a) ! i))) 100) \<and>
              (Low (bars (data a) ! i) \<noteq> 0 \<longrightarrow>
                 future_return (event_at (bars (data a)) h f i) =
                   Some (Fin ((Close (bars (data a) ! (i + f)) - Low (bars (data a) ! i))
                                / Low (bars (data a) ! i) * 100)))
         else status (event_at (bars (data a)) h f i) = pending \<and>
              future_price (event_at (bars (data a)) h f i) = None \<and>
              future_return (event_at (bars (data a)) h f i) = None \<and>
              is_winner (event_at (bars (data a)) h f i) = None)"
    by (simp add: event_at_completed event_at_pending fdiv_def)
qed

theorem outcome_completed_or_pending_witness:
  "distinct (map date (bars (data ex_an))) \<and>
   snd (identify_breakouts ex_an 5 2 1) = Inr [ex_event] \<and>
   snd (identify_breakouts ex_an 5 2 10) = Inr [ex_pending] \<and>
   (1::nat) < length (bars (data ex_an)) \<and>
   confirmed (bars (data ex_an)) 5 2 1 \<and>
   status ex_event = completed \<and> future_price ex_event = Some (Close (bars (data ex_an) ! 2)) \<and>
   future_return ex_event = Some (Fin ((107 - 105) / 105 * 100)) \<and>
   status ex_pending = pending \<and> future_price ex_pending = None \<and>
   future_return ex_pending = None \<and> is_winner ex_pending = None"
proof -
  have pos: "(1::nat) < length (bars (data ex_an))" by (simp add: ex_length)
  have "status ex_event = completed \<and> future_price ex_event = Some (Close (bars (data ex_an) ! 2)) \<and>
        future_return ex_event = Some (Fin ((107 - 105) / 105 * 100))"
    using outcome_completed_or_pending[OF ex_distinct ex_run pos ex_confirmed]
    by (simp add: ex_length) (simp add: ex_an_def ex_bars_def fdiv_def)
  moreover have "status ex_pending = pending \<and> future_price ex_pending = None \<and>
        future_return ex_pending = None \<and> is_winner ex_pending = None"
    using outcome_completed_or_pending[OF ex_distinct ex_run_pending pos ex_confirmed]
    by (simp add: ex_length)
  ultimately show ?thesis
    using ex_distinct ex_run ex_run_pending pos ex_confirmed by simp
qed

text \<open>
  C5. Every reported record has a breakout return of at least the threshold; a day whose
  return equals the threshold is among the candidates; and the first bar, whose return is
  NaN, is neither a candidate nor reported.
\<close>

theorem reported_return_reaches_threshold:
  assumes "distinct (map date (bars (data a)))"
    and "snd (identify_breakouts a t h f) = Inr evs"
  shows "(\<forall>e\<in>set evs. fge (breakout_return e) t) \<and>
         (\<forall>i<length (bars (data a)). daily_returns (bars (data a)) ! i = Fin t \<longrightarrow>
            (bars (data a) ! i, Fin t) \<in>
              set (breakout_candidates (bars (data a)) (daily_returns (bars (data a))) t)) \<and>
         (bars (data a) \<noteq> [] \<longrightarrow>
            (\<forall>c\<in>set (breakout_candidates (bars (data a)) (daily_returns (bars (data a))) t).
               date (fst c) \<noteq> date (bars (data a) ! 0)) \<and>
            (\<forall>e\<in>set evs. breakout_date e \<noteq> date (bars (data a) ! 0)))"
proof (intro conjI ballI allI impI)
  fix e assume e: "e \<in> set evs"
  from reported_event_position[OF assms e] obtain k where
    k: "k < length (bars (data a))" "confirmed (bars (data a)) t h k"
       "e = event_at (bars (data a)) h f k" by blast
  then show "fge (breakout_return e) t" by (simp add: confirmed_def)
next
  fix i assume i: "i < length (bars (data a))"
    and tie: "daily_returns (bars (data a)) ! i = Fin t"
  have "fge (daily_returns (bars (data a)) ! i) t" using tie by simp
  from candidate_in_set[OF i this] tie
  show "(bars (data a) ! i, Fin t) \<in>
          set (breakout_candidates (bars (data a)) (daily_returns (bars (data a))) t)"
    by simp
next
  fix c
  assume ne: "bars (data a) \<noteq> []"
    and c: "c \<in> set (breakout_candidates (bars (data a)) (daily_returns (bars (data a))) t)"
  from candidate_positions[OF c] obtain i where
    i: "i < length (bars (data a))" "c = (bars (data a) ! i, daily_returns (bars (data a)) ! i)"
       "fge (daily_returns (bars (data a)) ! i) t" by blast
  have "i \<noteq> 0" using i(3) daily_returns_first[OF ne] by (cases "i = 0") simp_all
  show "date (fst c) \<noteq> date (bars (data a) ! 0)"
  proof
    assume "date (fst c) = date (bars (data a) ! 0)"
    then have "i = 0"
      using same_date_same_position[OF assms(1) i(1), of 0] i(2) ne by simp
    then show False using \<open>i \<noteq> 0\<close> by simp
  qed
next
  fix e
  assume ne: "bars (data a) \<noteq> []" and e: "e \<in> set evs"
  from reported_event_position[OF assms e] obtain k where
    k: "k < length (bars (data a))" "confirmed (bars (data a)) t h k"
       "e = event_at (bars (data a)) h f k" by blast
  have "k \<noteq> 0" using k(2) daily_returns_first[OF ne] by (cases "k = 0") (simp_all add: confirmed_def)
  show "breakout_date e \<noteq> date (bars (data a) ! 0)"
  proof
    assume "breakout_date e = date (bars (data a) ! 0)"
    then have "k = 0"
      using same_date_same_position[OF assms(1) k(1), of 0] k(3) ne by simp
    then show False using \<open>k \<noteq> 0\<close> by simp
  qed
qed

theorem reported_return_reaches_threshold_witness:
  "distinct (map date (bars (data ex_an))) \<and>
   snd (identify_breakouts ex_an 6 2 1) = Inr [ex_event] \<and>
   fge (breakout_return ex_event) 6 \<and>
   daily_returns (bars (data ex_an)) ! 1 = Fin 6 \<and>
   (bars (data ex_an) ! 1, Fin 6) \<in>
      set (breakout_candidates (bars (data ex_an)) (daily_returns (bars (data ex_an))) 6) \<and>
   bars (data ex_an) \<noteq> [] \<and>
   breakout_date ex_event \<noteq> date (bars (data ex_an) ! 0)"
proof -
  note T = reported_return_reaches_threshold[OF ex_distinct ex_run_tie]
  have pos: "(1::nat) < length (bars (data ex_an))" by (simp add: ex_length)
  have tie: "daily_returns (bars (data ex_an)) ! 1 = Fin 6"
    by (simp add: ex_an_def ex_returns)
  have ne: "bars (data ex_an) \<noteq> []" by (simp add: ex_an_def ex_bars_def)
  have "fge (breakout_return ex_event) 6" using T by simp
  moreover have "(bars (data ex_an) ! 1, Fin 6) \<in>
      set (breakout_candidates (bars (data ex_an)) (daily_returns (bars (data ex_an))) 6)"
    using T pos tie by blast
  moreover have "breakout_date ex_event \<noteq> date (bars (data ex_an) ! 0)"
    using T ne by simp
  ultimately show ?thesis using ex_distinct ex_run_tie tie ne by simp
qed

text \<open>
  C6. A completed record has a future price, and its winner flag is the strict comparison
  of that price with the breakout price: equal prices give a loss.
\<close>

theorem winner_is_strict_comparison:
  assumes "distinct (map date (bars (data a)))"
    and "snd (identify_breakouts a t h f) = Inr evs"
  shows "\<forall>e\<in>set evs. status e = completed \<longrightarrow>
           (\<exists>fp. future_price e = Some fp \<and> is_winner e = Some (breakout_price e < fp) \<and>
                 (fp = breakout_price e \<longrightarrow> is_winner e = Some False))"
proof (intro ballI impI)
  fix e assume e: "e \<in> set evs" and st: "status e = completed"
  from reported_event_position[OF assms e] obtain k where
    k: "k < length (bars (data a))" "e = event_at (bars (data a)) h f k" by blast
  have "k + f < length (bars (data a))"
    using st k(2) event_at_pending(1)[of k f "bars (data a)" h] by (cases "k + f < length (bars (data a))") simp_all
  from event_at_completed[OF this, of h] k(2)
  show "\<exists>fp. future_price e = Some fp \<and> is_winner e = Some (breakout_price e < fp) \<and>
                 (fp = breakout_price e \<longrightarrow> is_winner e = Some False)"
    by simp
qed

theorem winner_is_strict_comparison_witness:
  "distinct (map date (bars (data tie_an))) \<and>
   snd (identify_breakouts tie_an 5 0 0) = Inr [tie_event] \<and>
   status tie_event = completed \<and>
   future_price tie_event = Some (breakout_price tie_event) \<and>
   is_winner tie_event = Some False"
proof -
  have st: "status tie_event = completed" by (simp add: tie_event_def)
  have "\<exists>fp. future_price tie_event = Some fp \<and>
          is_winner tie_event = Some (breakout_price tie_event < fp) \<and>
          (fp = breakout_price tie_event \<longrightarrow> is_winner tie_event = Some False)"
    by (rule winner_is_strict_comparison[OF tie_distinct tie_run, rule_format, OF _ st]) simp
  moreover have "future_price tie_event = Some (breakout_price tie_event)"
    by (simp add: tie_event_def)
  ultimately have "is_winner tie_event = Some False" by auto
  then show ?thesis
    using tie_distinct tie_run st \<open>future_price tie_event = Some (breakout_price tie_event)\<close> by simp
qed

text \<open>
  C7. The table of the sweep is the list of the rows of standalone runs, one per
  threshold, each on the analyzer as it was given, with \<open>hold_days = 2\<close> and
  \<open>future_days = 126\<close>: row \<open>k\<close> is the row of the collection a standalone run
  returns for threshold \<open>k\<close>, whatever the other thresholds are. With distinct dates
  the sweep returns a table.
\<close>

theorem sweep_rows_are_standalone_runs:
  "snd (generate_parameter_sweep_table a ts) = sweep_by_standalone_runs a ts \<and>
   (\<forall>rows. snd (generate_parameter_sweep_table a ts) = Inr rows \<longrightarrow>
      length rows = length ts \<and>
      (\<forall>k<length ts. \<exists>evs. snd (identify_breakouts a (ts ! k) 2 126) = Inr evs \<and>
                          rows ! k = sweep_row_of (ts ! k) evs)) \<and>
   (distinct (map date (bars (data a))) \<longrightarrow>
      (\<exists>rows. snd (generate_parameter_sweep_table a ts) = Inr rows))"
  unfolding sweep_table_standalone
  using standalone_runs_rows[of a ts] standalone_runs_total[of a ts] by blast

theorem sweep_rows_are_standalone_runs_witness:
  "distinct (map date (bars (data long_an))) \<and>
   snd (generate_parameter_sweep_table long_an [5, 20]) = Inr [long_row, sweep_row_of 20 []] \<and>
   snd (identify_breakouts long_an 5 2 126) = Inr [long_winner, long_pending] \<and>
   snd (identify_breakouts long_an 20 2 126) = Inr [] \<and>
   long_row = sweep_row_of 5 [long_winner, long_pending]"
proof -
  note T = sweep_rows_are_standalone_runs[of long_an "[5, 20]"]
  from T have "snd (generate_parameter_sweep_table long_an [5, 20]) =
               sweep_by_standalone_runs long_an [5, 20]" by (rule conjunct1)
  then have "snd (generate_parameter_sweep_table long_an [5, 20]) =
               Inr [long_row, sweep_row_of 20 []]"
    by (simp add: long_run long_run_empty long_row_eval)
  then show ?thesis
    using long_distinct long_run long_run_empty long_row_eval by simp
qed

text \<open>
  C8. When no position holds, detection returns the empty collection, not an error; the
  chart and the report compute nothing; the row of the sweep is the row of zeros, with
  win rate 0 and mean 0; and the title statistics of a collection without completed
  records have win rate 0 and median 0.
\<close>

theorem empty_collection_is_normal:
  assumes "distinct (map date (bars (data a)))"
    and "\<forall>i<length (bars (data a)). \<not> confirmed (bars (data a)) t h i"
  shows "snd (identify_breakouts a t h f) = Inr [] \<and>
         breakouts (fst (identify_breakouts a t h f)) = Some [] \<and>
         plot_breakouts (fst (identify_breakouts a t h f)) = None \<and>
         completed_report [] = None \<and>
         (h = 2 \<longrightarrow> snd (generate_parameter_sweep_table a [t]) = Inr [sweep_row_of t []]) \<and>
         total_breakouts (sweep_row_of t []) = 0 \<and>
         wins (sweep_row_of t []) = 0 \<and>
         win_rate (sweep_row_of t []) = 0 \<and>
         avg_return (sweep_row_of t []) = Fin 0 \<and>
         (\<forall>evs. filter (\<lambda>e. status e = completed) evs = [] \<longrightarrow>
            plot_win_rate (title_stats_of evs) = 0 \<and>
            plot_median_return (title_stats_of evs) = Fin 0)"
proof -
  have none: "filter (confirmed (bars (data a)) t h) [0..<length (bars (data a))] = []"
    using assms(2) by (simp add: filter_empty_conv)
  have run: "snd (identify_breakouts a t h f) = Inr []" for f
    unfolding identify_breakouts_events[OF assms(1)] none by simp
  have stored: "breakouts (fst (identify_breakouts a t h f)) = Some []"
    by (rule identify_breakouts_stores[OF run])
  have plot: "plot_breakouts (fst (identify_breakouts a t h f)) = None"
    by (simp add: plot_breakouts_def stored)
  have sweep: "h = 2 \<longrightarrow> snd (generate_parameter_sweep_table a [t]) = Inr [sweep_row_of t []]"
    using run[of 126] by (auto simp: sweep_table_standalone)
  have row: "total_breakouts (sweep_row_of t []) = 0 \<and> wins (sweep_row_of t []) = 0 \<and>
             win_rate (sweep_row_of t []) = 0 \<and> avg_return (sweep_row_of t []) = Fin 0"
    by (simp add: sweep_row_of_def)
  have title: "\<forall>evs. filter (\<lambda>e. status e = completed) evs = [] \<longrightarrow>
            plot_win_rate (title_stats_of evs) = 0 \<and>
            plot_median_return (title_stats_of evs) = Fin 0"
    by (simp add: title_stats_of_def Let_def)
  have report: "completed_report [] = None" by (simp add: completed_report_def)
  from run stored plot report sweep row title show ?thesis by blast
qed

theorem empty_collection_is_normal_witness:
  "distinct (map date (bars (data long_an))) \<and>
   filter (confirmed (bars (data long_an)) 20 2) [0..<length (bars (data long_an))] = [] \<and>
   snd (identify_breakouts long_an 20 2 126) = Inr [] \<and>
   snd (generate_parameter_sweep_table long_an [20]) = Inr [sweep_row_of 20 []] \<and>
   win_rate (sweep_row_of 20 []) = 0 \<and>
   avg_return (sweep_row_of 20 []) = Fin 0"
proof -
  have d: "bars (data long_an) = long_bars" by (simp add: long_an_def)
  have none: "filter (confirmed (bars (data long_an)) 20 2) [0..<length (bars (data long_an))] = []"
    unfolding d long_length by (rule long_no_positions)
  have hyp: "\<forall>i<length (bars (data long_an)). \<not> confirmed (bars (data long_an)) 20 2 i"
    unfolding d long_length using long_unconfirmed by blast
  from empty_collection_is_normal[OF long_distinct hyp, of 126]
  show ?thesis using long_distinct none by simp
qed

text \<open>
  C9. The hold period data of a reported record at position \<open>i\<close> has
  \<open>hold_days + 1\<close> entries, the dates and closes of positions \<open>i\<close> to
  \<open>i + hold_days\<close>, all of which exist.
\<close>

theorem hold_period_has_all_entries:
  assumes "distinct (map date (bars (data a)))"
    and "snd (identify_breakouts a t h f) = Inr evs"
  shows "\<forall>e\<in>set evs. \<forall>i<length (bars (data a)). breakout_date e = date (bars (data a) ! i) \<longrightarrow>
           i + h < length (bars (data a)) \<and>
           length (hold_period_data e) = h + 1 \<and>
           hold_period_data e =
             map (\<lambda>k. (date (bars (data a) ! k), Close (bars (data a) ! k))) [i..<i + h + 1]"
proof (intro ballI allI impI)
  fix e i
  assume e: "e \<in> set evs" and i: "i < length (bars (data a))"
    and at: "breakout_date e = date (bars (data a) ! i)"
  from reported_event_position[OF assms e] obtain k where
    k: "k < length (bars (data a))" "confirmed (bars (data a)) t h k"
       "e = event_at (bars (data a)) h f k" by blast
  have ik: "i = k"
    using same_date_same_position[OF assms(1) i k(1)] at k(3) by simp
  have inside: "i + h < length (bars (data a))"
    using confirmed_window_inside[OF k(2) k(1)] ik by simp
  have eq: "hold_period_data e =
             map (\<lambda>k. (date (bars (data a) ! k), Close (bars (data a) ! k))) [i..<i + h + 1]"
    using hold_period_full[OF inside] k(3) ik by simp
  have "length (hold_period_data e) = h + 1"
    unfolding eq by (simp del: upt_Suc)
  with inside eq
  show "i + h < length (bars (data a)) \<and>
           length (hold_period_data e) = h + 1 \<and>
           hold_period_data e =
             map (\<lambda>k. (date (bars (data a) ! k), Close (bars (data a) ! k))) [i..<i + h + 1]"
    by blast
qed

theorem hold_period_has_all_entries_witness:
  "distinct (map date (bars (data ex_an))) \<and>
   snd (identify_breakouts ex_an 5 2 1) = Inr [ex_event] \<and>
   breakout_date ex_event = date (bars (data ex_an) ! 1) \<and>
   length (hold_period_data ex_event) = 2 + 1 \<and>
   hold_period_data ex_event = [(1, 106), (2, 107), (3, 108)]"
proof -
  have pos: "(1::nat) < length (bars (data ex_an))" by (simp add: ex_length)
  have at: "breakout_date ex_event = date (bars (data ex_an) ! 1)"
    by (simp add: ex_event_def ex_an_def ex_bars_def)
  have "1 + 2 < length (bars (data ex_an)) \<and>
        length (hold_period_data ex_event) = 2 + 1 \<and>
        hold_period_data ex_event =
          map (\<lambda>k. (date (bars (data ex_an) ! k), Close (bars (data ex_an) ! k))) [1..<1 + 2 + 1]"
    by (rule hold_period_has_all_entries[OF ex_distinct ex_run, rule_format, OF _ pos at]) simp
  then show ?thesis
    using ex_distinct ex_run at by (simp add: ex_event_def)
qed

text \<open>
  C10. With \<open>future_days = 0\<close> every reported record is completed: its future price
  is the close of the breakout day, its return is computed from that close and the low,
  and it is a winner exactly when the close is above the low. Every position that held is
  reported so.
\<close>

theorem zero_horizon_is_completed:
  assumes "distinct (map date (bars (data a)))"
    and "snd (identify_breakouts a t h 0) = Inr evs"
  shows "(\<forall>e\<in>set evs. \<forall>i<length (bars (data a)). breakout_date e = date (bars (data a) ! i) \<longrightarrow>
            status e = completed \<and>
            future_price e = Some (Close (bars (data a) ! i)) \<and>
            future_return e =
              Some (fmul (fdiv (Close (bars (data a) ! i) - Low (bars (data a) ! i))
                               (Low (bars (data a) ! i))) 100) \<and>
            is_winner e = Some (Low (bars (data a) ! i) < Close (bars (data a) ! i))) \<and>
         (\<forall>i<length (bars (data a)). confirmed (bars (data a)) t h i \<longrightarrow>
            (\<exists>e\<in>set evs. breakout_date e = date (bars (data a) ! i) \<and> status e = completed))"
proof (intro conjI ballI allI impI)
  fix i assume i: "i < length (bars (data a))" and c: "confirmed (bars (data a)) t h i"
  have "event_at (bars (data a)) h 0 i \<in> set evs"
    by (rule confirmed_position_reported[OF assms i c])
  moreover have "status (event_at (bars (data a)) h 0 i) = completed"
    using i by (simp add: event_at_completed)
  ultimately show "\<exists>e\<in>set evs. breakout_date e = date (bars (data a) ! i) \<and> status e = completed"
    by (intro bexI[of _ "event_at (bars (data a)) h 0 i"]) simp_all
next
  fix e i
  assume e: "e \<in> set evs" and i: "i < length (bars (data a))"
    and at: "breakout_date e = date (bars (data a) ! i)"
  from reported_event_position[OF assms e] obtain k where
    k: "k < length (bars (data a))" "e = event_at (bars (data a)) h 0 k" by blast
  have ik: "i = k"
    using same_date_same_position[OF assms(1) i k(1)] at k(2) by simp
  have inside: "i + 0 < length (bars (data a))" using i by simp
  note E = event_at_completed[OF inside, of h]
  show "status e = completed" using E(1) k(2) ik by simp
  show "future_price e = Some (Close (bars (data a) ! i))" using E(2) k(2) ik by simp
  show "future_return e =
              Some (fmul (fdiv (Close (bars (data a) ! i) - Low (bars (data a) ! i))
                               (Low (bars (data a) ! i))) 100)" using E(3) k(2) ik by simp
  show "is_winner e = Some (Low (bars (data a) ! i) < Close (bars (data a) ! i))"
    using E(4) k(2) ik by simp
qed

theorem zero_horizon_is_completed_witness:
  "distinct (map date (bars (data ex_an))) \<and>
   snd (identify_breakouts ex_an 5 2 0) = Inr [ex_same_day] \<and>
   breakout_date ex_same_day = date (bars (data ex_an) ! 1) \<and>
   confirmed (bars (data ex_an)) 5 2 1 \<and>
   status ex_same_day = completed \<and>
   future_price ex_same_day = Some 106 \<and>
   future_return ex_same_day = Some (Fin (20 / 21)) \<and>
   is_winner ex_same_day = Some True"
proof -
  have pos: "(1::nat) < length (bars (data ex_an))" by (simp add: ex_length)
  have at: "breakout_date ex_same_day = date (bars (data ex_an) ! 1)"
    by (simp add: ex_same_day_def ex_an_def ex_bars_def)
  have "status ex_same_day = completed \<and>
            future_price ex_same_day = Some (Close (bars (data ex_an) ! 1)) \<and>
            future_return ex_same_day =
              Some (fmul (fdiv (Close (bars (data ex_an) ! 1) - Low (bars (data ex_an) ! 1))
                               (Low (bars (data ex_an) ! 1))) 100) \<and>
            is_winner ex_same_day = Some (Low (bars (data ex_an) ! 1) < Close (bars (data ex_an) ! 1))"
    by (rule zero_horizon_is_completed[OF ex_distinct ex_run_same_day, THEN conjunct1, rule_format, OF _ pos at]) simp
  then show ?thesis
    using ex_distinct ex_run_same_day at ex_confirmed
    by (simp add: ex_an_def ex_bars_def fdiv_def)
qed


end
